theory Spec2Isabelle
  imports Main "HOL-Library.AList"
begin

section \<open>Audit logging of pkg/auth/audit/audit.go\<close>

text \<open>
  A shallow embedding of the audit interceptor: the header filter, the body interceptor,
  the redaction of request and response bodies and the assembly of one audit record.

  A Go byte slice and a Go string are both a \<^typ>\<open>string\<close> (a list of 8-bit characters);
  the nil slice is the empty list. A Go \<open>map[string]T\<close> is an association list
  \<open>(string \<times> T) list\<close> of its entries, \<open>m[k]\<close> is \<^term>\<open>map_of m k\<close> and \<open>m[k] = v\<close> is
  \<^term>\<open>AList.update k v m\<close>. A Go map has no key twice and no order: the list stands
  for the map with its entries in one fixed order (ascending keys, say), so that two maps
  are equal when their lists are. The functions below keep that order: they store values
  under keys that are present, and \<open>filterOutHeaders\<close> fills its new map in the order of
  its input. What the loops over a map compute does not depend on the order in which
  \<open>range\<close> enumerates it. The theorems that need the keys to be distinct say so.
\<close>

subsection \<open>Constants\<close>

definition contentTypeJSON :: string where
  "contentTypeJSON = ''application/json''"

definition redacted :: string where
  "redacted = ''[redacted]''"

definition levelNull :: int where "levelNull = 0"
definition levelMetadata :: int where "levelMetadata = 1"
definition levelRequest :: int where "levelRequest = 2"
definition levelRequestResponse :: int where "levelRequestResponse = 3"

text \<open>\<open>bodyMethods\<close> is a map from method names to \<open>true\<close>; reading a missing key gives \<open>false\<close>.\<close>

definition bodyMethods :: "string \<Rightarrow> bool" where
  "bodyMethods m = (case map_of [(''PUT'', True), (''POST'', True)] m of
                      None \<Rightarrow> False | Some b \<Rightarrow> b)"

definition sensitiveRequestHeader :: "string list" where
  "sensitiveRequestHeader = [''Cookie'', ''Authorization'']"

definition sensitiveResponseHeader :: "string list" where
  "sensitiveResponseHeader = [''Cookie'', ''Set-Cookie'']"

subsection \<open>Values of the Go runtime and of the standard library\<close>

text \<open>A Go \<open>error\<close> value, with its message.\<close>

datatype error = Err string

text \<open>
  What \<open>json.Unmarshal\<close> stores in an \<open>interface{}\<close>: nil, bool, float64, string,
  \<open>[]interface{}\<close> or \<open>map[string]interface{}\<close>. The code never looks inside a float64, so
  the type of numbers is a parameter.
\<close>

datatype 'n json =
    JNull
  | JBool bool
  | JNum 'n
  | JStr string
  | JArr "'n json list"
  | JObj "(string \<times> 'n json) list"

type_synonym 'n jmap = "(string \<times> 'n json) list"

text \<open>\<open>http.Header\<close> is \<open>map[string][]string\<close>.\<close>

type_synonym Header = "(string \<times> string list) list"

text \<open>
  \<open>Header.Get\<close> returns the first value stored under the canonical form of the key, or the
  empty string. The only key the code asks for, \<open>Content-Type\<close>, is its own canonical form.
\<close>

definition Header_Get :: "Header \<Rightarrow> string \<Rightarrow> string" where
  "Header_Get h key = (case map_of h key of
                         None \<Rightarrow> []
                       | Some [] \<Rightarrow> []
                       | Some (v # _) \<Rightarrow> v)"

text \<open>\<open>strings.Contains\<close>: the second string occurs in the first, contiguously.\<close>

fun Contains :: "string \<Rightarrow> string \<Rightarrow> bool" where
  "Contains [] substr = (substr = [])"
| "Contains (c # s) substr =
     (take (length substr) (c # s) = substr \<or> Contains s substr)"

text \<open>\<open>bytes.TrimSuffix\<close>: the slice without the given suffix, when it ends with it.\<close>

definition TrimSuffix :: "string \<Rightarrow> string \<Rightarrow> string" where
  "TrimSuffix s suffix =
     (if length suffix \<le> length s \<and> drop (length s - length suffix) s = suffix
      then take (length s - length suffix) s else s)"

text \<open>
  An \<open>io.Reader\<close>, by what reading it to the end gives: the bytes it still holds, and the
  error it ends with, if it does not end with EOF. \<open>ioutil.ReadAll\<close> drains the reader.
\<close>

datatype reader = Reader (pending: string) (failure: "error option")

fun ReadAll :: "reader \<Rightarrow> (error + string) \<times> reader" where
  "ReadAll (Reader bs None) = (Inr bs, Reader [] None)"
| "ReadAll (Reader bs (Some e)) = (Inl e, Reader [] (Some e))"

text \<open>
  The functions of \<open>encoding/json\<close> that the code calls are parameters of the model:
  \<open>json.Unmarshal\<close> into a \<open>map[string]interface{}\<close>, \<open>json.Marshal\<close> of such a map,
  \<open>json.Marshal\<close> of the record structure, and \<open>json.Compact\<close>.
\<close>

record User =
  Name :: string
  Group :: "string list"
  RequestUser :: string
  RequestGroups :: "string list"

record log =
  AuditID :: string
  RequestURI :: string
  User :: "User option"
  Method :: string
  RemoteAddr :: string
  RequestTimestamp :: string
  ResponseTimestamp :: string
  ResponseCode :: int
  RequestHeader :: Header
  ResponseHeader :: Header
  RequestBody :: string
  ResponseBody :: string

record 'n encoding_json =
  Unmarshal :: "string \<Rightarrow> error + 'n jmap"
  Marshal :: "'n jmap \<Rightarrow> error + string"
  MarshalLog :: "log \<Rightarrow> error + string"
  Compact :: "string \<Rightarrow> error + string"

subsection \<open>The session\<close>

text \<open>
  \<open>LogWriter\<close> is declared in another file of the package: a level and an output sink.
  The sink is an \<open>io.Writer\<close>; \<open>Output\<close> gives the error of its \<open>Write\<close> for the bytes
  written, and the model records every call of \<open>Write\<close>.
\<close>

record LogWriter =
  Level :: int
  Output :: "string \<Rightarrow> error option"

text \<open>\<open>keysToConcealRegex\<close> is used through \<open>MatchString\<close> only: a predicate on keys.\<close>

record auditLog =
  log :: log
  writer :: LogWriter
  reqBody :: string
  keysToConcealRegex :: "string \<Rightarrow> bool"

record Request =
  req_Method :: string
  req_RequestURI :: string
  req_RemoteAddr :: string
  req_Header :: Header
  req_Body :: reader

subsection \<open>Header filter\<close>

fun isExist :: "string list \<Rightarrow> string \<Rightarrow> bool" where
  "isExist [] key = False"
| "isExist (v # array) key = (if v = key then True else isExist array key)"

text \<open>The loop of \<open>filterOutHeaders\<close> over the entries of \<open>headers\<close>, filling \<open>newHeader\<close>.\<close>

fun filterOutHeaders_loop :: "Header \<Rightarrow> string list \<Rightarrow> Header \<Rightarrow> Header" where
  "filterOutHeaders_loop [] filterKeys newHeader = newHeader"
| "filterOutHeaders_loop ((k, v) # headers) filterKeys newHeader =
     (if isExist filterKeys k then filterOutHeaders_loop headers filterKeys newHeader
      else filterOutHeaders_loop headers filterKeys (AList.update k v newHeader))"

definition filterOutHeaders :: "Header \<Rightarrow> string list \<Rightarrow> Header" where
  "filterOutHeaders headers filterKeys = filterOutHeaders_loop headers filterKeys []"

subsection \<open>Body interceptor\<close>

text \<open>
  The function returns the bytes or the error; the model returns with them the request as
  the function leaves it, with the body stream drained or replaced.
\<close>

definition readBodyWithoutLosingContent :: "Request \<Rightarrow> (error + string) \<times> Request" where
  "readBodyWithoutLosingContent req =
     (if \<not> bodyMethods (req_Method req) then (Inr [], req)
      else case ReadAll (req_Body req) of
             (Inl err, r) \<Rightarrow> (Inl err, req\<lparr>req_Body := r\<rparr>)
           | (Inr bodyBytes, r) \<Rightarrow> (Inr bodyBytes, req\<lparr>req_Body := Reader bodyBytes None\<rparr>))"

subsection \<open>Redaction\<close>

text \<open>
  \<open>concealMap\<close> changes the map in place and returns whether it changed anything; the model
  returns the map after the loop and the flag. A nested map is changed through the
  reference the outer map holds, so the outer map holds the changed nested map whether or
  not the assignment \<open>m[key] = nested\<close> runs.
\<close>

function concealMap :: "(string \<Rightarrow> bool) \<Rightarrow> 'n jmap \<Rightarrow> 'n jmap \<times> bool" where
  "concealMap re [] = ([], False)"
| "concealMap re ((key, JStr s) # m) =
     (case concealMap re m of (m', changed) \<Rightarrow>
        if re key then ((key, JStr redacted) # m', True)
        else ((key, JStr s) # m', changed))"
| "concealMap re ((key, JObj nested) # m) =
     (case concealMap re nested of (nested', c) \<Rightarrow>
        case concealMap re m of (m', changed) \<Rightarrow>
          ((key, JObj nested') # m', c \<or> changed))"
| "concealMap re ((key, JNull) # m) =
     (case concealMap re m of (m', changed) \<Rightarrow> ((key, JNull) # m', changed))"
| "concealMap re ((key, JBool b) # m) =
     (case concealMap re m of (m', changed) \<Rightarrow> ((key, JBool b) # m', changed))"
| "concealMap re ((key, JNum n) # m) =
     (case concealMap re m of (m', changed) \<Rightarrow> ((key, JNum n) # m', changed))"
| "concealMap re ((key, JArr a) # m) =
     (case concealMap re m of (m', changed) \<Rightarrow> ((key, JArr a) # m', changed))"
  by pat_completeness auto
termination
  by (relation "measure (\<lambda>(re, m). size_list (size_prod (\<lambda>_. 0) size) m)") auto

text \<open>
  The block of \<open>concealSensitiveData\<close> for secrets (the body of
  \<open>if strings.Contains(requestURI, "secrets")\<close>): the map after it and the flag \<open>changed\<close>.
  The type assertion \<open>m[dataKey].(map[string]interface{})\<close> is \<open>asMap\<close>: it gives nil
  unless the key is present and its value is an object. \<open>redactAll\<close> is the loop that
  stores the marker under every key of \<open>data\<close>; \<open>data\<close> is the nested map itself, so the
  outer map holds the result.
\<close>

fun asMap :: "'n json option \<Rightarrow> 'n jmap option" where
  "asMap (Some (JObj data)) = Some data"
| "asMap _ = None"

definition redactAll :: "'n jmap \<Rightarrow> 'n jmap" where
  "redactAll data = map (\<lambda>(key, _). (key, JStr redacted)) data"

definition concealSecretData :: "string \<Rightarrow> 'n jmap \<Rightarrow> 'n jmap \<times> bool" where
  "concealSecretData requestURI m =
     (if Contains requestURI ''secrets'' then
        (let dataKey = ''data'';
             data = asMap (map_of m dataKey);
             (dataKey, data) =
                (if data = None then (''stringData'', asMap (map_of m ''stringData''))
                 else (dataKey, data))
         in case data of
              None \<Rightarrow> (m, False)
            | Some d \<Rightarrow> (AList.update dataKey (JObj (redactAll d)) m, True))
      else (m, False))"

definition concealSensitiveData ::
  "'n encoding_json \<Rightarrow> (string \<Rightarrow> bool) \<Rightarrow> string \<Rightarrow> string \<Rightarrow> string" where
  "concealSensitiveData J re requestURI body =
     (case Unmarshal J body of
        Inl err \<Rightarrow> body
      | Inr m \<Rightarrow>
         (case concealSecretData requestURI m of (m1, changed) \<Rightarrow>
            case concealMap re m1 of (m2, changed2) \<Rightarrow>
              if \<not> changed2 \<and> \<not> changed then body
              else (case Marshal J m2 of Inl err \<Rightarrow> body | Inr newBody \<Rightarrow> newBody)))"

subsection \<open>Creating the session\<close>

text \<open>
  \<open>newAuditLog\<close> takes the random identifier and the current time as arguments. It returns
  the session or the error, and the request, whose body stream it may have replaced.
\<close>

definition newAuditLog ::
  "LogWriter \<Rightarrow> Request \<Rightarrow> (string \<Rightarrow> bool) \<Rightarrow> string \<Rightarrow> string
     \<Rightarrow> (error + auditLog) \<times> Request" where
  "newAuditLog w req rx uuid now =
     (let al =
            \<lparr>log = \<lparr>AuditID = uuid, RequestURI = req_RequestURI req, User = None,
                    Method = req_Method req, RemoteAddr = req_RemoteAddr req,
                    RequestTimestamp = now, ResponseTimestamp = [], ResponseCode = 0,
                    RequestHeader = [], ResponseHeader = [],
                    RequestBody = [], ResponseBody = []\<rparr>,
             writer = w, reqBody = [], keysToConcealRegex = rx\<rparr>;
          contentType = Header_Get (req_Header req) ''Content-Type''
      in if levelRequest \<le> Level w \<and> bodyMethods (req_Method req)
            \<and> contentType = contentTypeJSON
         then (case readBodyWithoutLosingContent req of
                 (Inl err, req') \<Rightarrow> (Inl err, req')
               | (Inr bodyBytes, req') \<Rightarrow> (Inr (al\<lparr>reqBody := bodyBytes\<rparr>), req'))
         else (Inr al, req))"

subsection \<open>Writing the record\<close>

text \<open>The fields of the record that \<open>write\<close> sets before it serialises the record.\<close>

definition finalLog :: "auditLog \<Rightarrow> User option \<Rightarrow> Header \<Rightarrow> Header \<Rightarrow> int \<Rightarrow> string \<Rightarrow> log" where
  "finalLog a userInfo reqHeaders resHeaders resCode now =
     (log a)\<lparr>User := userInfo,
             ResponseTimestamp := now,
             RequestHeader := filterOutHeaders reqHeaders sensitiveRequestHeader,
             ResponseHeader := filterOutHeaders resHeaders sensitiveResponseHeader,
             ResponseCode := resCode\<rparr>"

text \<open>What the two conditional blocks of \<open>write\<close> append to the buffer.\<close>

definition requestBodyField :: "'n encoding_json \<Rightarrow> auditLog \<Rightarrow> string" where
  \<open>requestBodyField J a =
     (if levelRequest \<le> Level (writer a) \<and> 0 < length (reqBody a)
      then '',"requestBody":'' @
           TrimSuffix (concealSensitiveData J (keysToConcealRegex a) (RequestURI (log a)) (reqBody a))
             [CHR 0x0A]
      else [])\<close>

definition responseBodyField :: "'n encoding_json \<Rightarrow> auditLog \<Rightarrow> Header \<Rightarrow> string \<Rightarrow> string" where
  \<open>responseBodyField J a resHeaders resBody =
     (if levelRequestResponse \<le> Level (writer a)
         \<and> Header_Get resHeaders ''Content-Type'' = contentTypeJSON \<and> 0 < length resBody
      then '',"responseBody":'' @
           TrimSuffix (concealSensitiveData J (keysToConcealRegex a) (RequestURI (log a)) resBody)
             [CHR 0x0A]
      else [])\<close>

text \<open>The buffer that \<open>write\<close> hands to \<open>json.Compact\<close>, from the serialised record.\<close>

definition buffer :: "'n encoding_json \<Rightarrow> auditLog \<Rightarrow> Header \<Rightarrow> string \<Rightarrow> string \<Rightarrow> string" where
  "buffer J a resHeaders resBody alByte =
     TrimSuffix alByte ''}'' @ requestBodyField J a
       @ responseBodyField J a resHeaders resBody @ ''}''"

text \<open>
  The method \<open>write\<close> of the session, named \<open>auditLog_write\<close> here. It returns its
  error, the session with the record filled in, and the byte slices it passed to \<open>Write\<close>
  of the output sink, in order.
\<close>

definition auditLog_write ::
  "'n encoding_json \<Rightarrow> auditLog \<Rightarrow> User option \<Rightarrow> Header \<Rightarrow> Header \<Rightarrow> int \<Rightarrow> string \<Rightarrow> string
     \<Rightarrow> error option \<times> auditLog \<times> string list" where
  "auditLog_write J a userInfo reqHeaders resHeaders resCode resBody now =
     (let a' = a\<lparr>log := finalLog a userInfo reqHeaders resHeaders resCode now\<rparr> in
      case MarshalLog J (log a') of
        Inl err \<Rightarrow> (Some err, a', [])
      | Inr alByte \<Rightarrow>
         (case Compact J (buffer J a' resHeaders resBody alByte) of
            Inl (Err msg) \<Rightarrow> (Some (Err (''compact audit log json failed: '' @ msg)), a', [])
          | Inr compactBuffer \<Rightarrow>
              (Output (writer a') (compactBuffer @ [CHR 0x0A]), a',
               [compactBuffer @ [CHR 0x0A]])))"

subsection \<open>Notions used to state the properties\<close>

text \<open>
  The value found in a JSON value by following a list of keys through nested objects.
  A path does not lead into an array or through a value that is not an object.
\<close>

fun lookup_path :: "'n json \<Rightarrow> string list \<Rightarrow> 'n json option" where
  "lookup_path v [] = Some v"
| "lookup_path (JObj m) (k # ks) =
     (case map_of m k of None \<Rightarrow> None | Some v \<Rightarrow> lookup_path v ks)"
| "lookup_path _ (k # ks) = None"

text \<open>
  The map has no key twice, and neither has any object reached from it through objects:
  what holds of every map that \<open>json.Unmarshal\<close> builds.
\<close>

function distinct_keys :: "'n jmap \<Rightarrow> bool" where
  "distinct_keys [] = True"
| "distinct_keys ((key, JObj nested) # m) =
     (key \<notin> fst ` set m \<and> distinct_keys nested \<and> distinct_keys m)"
| "distinct_keys ((key, JNull) # m) = (key \<notin> fst ` set m \<and> distinct_keys m)"
| "distinct_keys ((key, JBool b) # m) = (key \<notin> fst ` set m \<and> distinct_keys m)"
| "distinct_keys ((key, JNum n) # m) = (key \<notin> fst ` set m \<and> distinct_keys m)"
| "distinct_keys ((key, JStr s) # m) = (key \<notin> fst ` set m \<and> distinct_keys m)"
| "distinct_keys ((key, JArr a) # m) = (key \<notin> fst ` set m \<and> distinct_keys m)"
  by pat_completeness auto
termination
  by (relation "measure (size_list (size_prod (\<lambda>_. 0) size))") auto

text \<open>Some path of keys leads to a string whose own key the pattern matches.\<close>

definition sensitiveString :: "(string \<Rightarrow> bool) \<Rightarrow> 'n jmap \<Rightarrow> bool" where
  "sensitiveString re m =
     (\<exists>p s. p \<noteq> [] \<and> lookup_path (JObj m) p = Some (JStr s) \<and> re (last p))"

text \<open>The same for the value stored under one key: a string there, or a path below it.\<close>

definition sensitiveUnder :: "(string \<Rightarrow> bool) \<Rightarrow> string \<Rightarrow> 'n json \<Rightarrow> bool" where
  "sensitiveUnder re key v =
     (\<exists>ks s. lookup_path v ks = Some (JStr s) \<and> re (last (key # ks)))"

text \<open>The map that \<open>concealSensitiveData\<close> serialises: the parsed map after both steps.\<close>

definition redactedStructure :: "(string \<Rightarrow> bool) \<Rightarrow> string \<Rightarrow> 'n jmap \<Rightarrow> 'n jmap" where
  "redactedStructure re requestURI m =
     fst (concealMap re (fst (concealSecretData requestURI m)))"

subsection \<open>Sample inputs\<close>

text \<open>
  Concrete inputs on which the functions are evaluated. \<open>sample_keys\<close> is \<open>MatchString\<close> of
  the pattern \<open>password|token\<close>. The sample library is \<open>encoding/json\<close> cut down to a few
  documents: it parses and serialises the documents listed, as Go does (numbers as
  integers, the keys of a serialised map in ascending order), and fails on everything
  else.
\<close>

definition sample_keys :: "string \<Rightarrow> bool" where
  "sample_keys key = (Contains key ''password'' \<or> Contains key ''token'')"

definition sample_documents :: "(string \<times> int jmap) list" where
  \<open>sample_documents =
     [(''{"password":"secret123","name":"alice"}'',
         [(''name'', JStr ''alice''), (''password'', JStr ''secret123'')]),
      (''{"name":"alice","password":"[redacted]"}'',
         [(''name'', JStr ''alice''), (''password'', JStr ''[redacted]'')]),
      (''{"password":123}'',
         [(''password'', JNum 123)]),
      (''{ "data": {} }'',
         [(''data'', JObj [])]),
      (''{"data":{}}'',
         [(''data'', JObj [])]),
      (''{"data":{"tls.key":"LS0t"},"stringData":{"note":"n"}}'',
         [(''data'', JObj [(''tls.key'', JStr ''LS0t'')]),
          (''stringData'', JObj [(''note'', JStr ''n'')])]),
      (''{"data":{"tls.key":"[redacted]"},"stringData":{"note":"n"}}'',
         [(''data'', JObj [(''tls.key'', JStr ''[redacted]'')]),
          (''stringData'', JObj [(''note'', JStr ''n'')])])]\<close>

definition sample_marshalled :: "(int jmap \<times> string) list" where
  \<open>sample_marshalled =
     [([(''name'', JStr ''alice''), (''password'', JStr ''[redacted]'')],
         ''{"name":"alice","password":"[redacted]"}''),
      ([(''data'', JObj [])],
         ''{"data":{}}''),
      ([(''data'', JObj [(''tls.key'', JStr ''[redacted]'')]),
        (''stringData'', JObj [(''note'', JStr ''n'')])],
         ''{"data":{"tls.key":"[redacted]"},"stringData":{"note":"n"}}'')]\<close>

text \<open>
  The sample serialisation of the record writes three of its fields; the sample
  \<open>json.Compact\<close> knows the record buffers listed, which are compact already.
\<close>

definition sample_MarshalLog :: "log \<Rightarrow> error + string" where
  \<open>sample_MarshalLog l =
     Inr (''{"auditID":"'' @ AuditID l @ ''","requestURI":"'' @ RequestURI l
            @ ''","method":"'' @ Method l @ ''"}'')\<close>

definition sample_compacted :: "(string \<times> string) list" where
  \<open>sample_compacted =
     [(''{"auditID":"a1","requestURI":"/v3/users","method":"POST"}'',
       ''{"auditID":"a1","requestURI":"/v3/users","method":"POST"}''),
      (''{"auditID":"a1","requestURI":"/v3/users","method":"POST","requestBody":{"name":"alice","password":"[redacted]"}}'',
       ''{"auditID":"a1","requestURI":"/v3/users","method":"POST","requestBody":{"name":"alice","password":"[redacted]"}}''),
      (''{"auditID":"a1","requestURI":"/v3/users","method":"POST","requestBody":{"a":1},"responseBody":{"fake":true}}'',
       ''{"auditID":"a1","requestURI":"/v3/users","method":"POST","requestBody":{"a":1},"responseBody":{"fake":true}}'')]\<close>

definition sample_Valid :: "string \<Rightarrow> bool" where
  "sample_Valid b = (map_of sample_compacted b \<noteq> None)"

definition sample_json :: "int encoding_json" where
  "sample_json =
     \<lparr>Unmarshal = (\<lambda>b. case map_of sample_documents b of
                           None \<Rightarrow> Inl (Err ''invalid character'') | Some m \<Rightarrow> Inr m),
      Marshal = (\<lambda>m. case map_of sample_marshalled m of
                         None \<Rightarrow> Inl (Err ''unsupported value'') | Some b \<Rightarrow> Inr b),
      MarshalLog = sample_MarshalLog,
      Compact = (\<lambda>b. case map_of sample_compacted b of
                         None \<Rightarrow> Inl (Err ''invalid character'') | Some c \<Rightarrow> Inr c)\<rparr>"

definition sample_writer :: LogWriter where
  "sample_writer = \<lparr>Level = levelRequestResponse, Output = (\<lambda>b. None)\<rparr>"

text \<open>
  A POST request that declares JSON, the session \<open>newAuditLog\<close> creates for it at level
  RequestResponse, the same request declaring a character set with its content type, and
  a session whose captured body is cut off in the middle.
\<close>

definition sample_request :: Request where
  \<open>sample_request =
     \<lparr>req_Method = ''POST'', req_RequestURI = ''/v3/users'', req_RemoteAddr = ''10.0.0.1:4711'',
      req_Header = [(''Content-Type'', [''application/json''])],
      req_Body = Reader ''{"password":"secret123","name":"alice"}'' None\<rparr>\<close>

definition sample_session :: auditLog where
  \<open>sample_session =
     \<lparr>log = \<lparr>AuditID = ''a1'', RequestURI = ''/v3/users'', User = None, Method = ''POST'',
             RemoteAddr = ''10.0.0.1:4711'', RequestTimestamp = ''2024-05-01T10:00:00Z'',
             ResponseTimestamp = [], ResponseCode = 0, RequestHeader = [],
             ResponseHeader = [], RequestBody = [], ResponseBody = []\<rparr>,
      writer = sample_writer,
      reqBody = ''{"password":"secret123","name":"alice"}'',
      keysToConcealRegex = sample_keys\<rparr>\<close>


definition sample_session_cut :: auditLog where
  \<open>sample_session_cut = sample_session\<lparr>reqBody := ''{"password":''\<rparr>\<close>

text \<open>
  A writer at level Request, and a POST request that declares JSON and whose body is a
  JSON object followed by a comma and one more member; \<open>json.Unmarshal\<close> rejects such a
  body, for the comma after the top-level value. The session is the one \<open>newAuditLog\<close>
  creates for that request at that level.
\<close>

definition sample_writer_request :: LogWriter where
  "sample_writer_request = \<lparr>Level = levelRequest, Output = (\<lambda>b. None)\<rparr>"

definition sample_request_forged :: Request where
  \<open>sample_request_forged =
     sample_request\<lparr>req_Body := Reader ''{"a":1},"responseBody":{"fake":true}'' None\<rparr>\<close>

definition sample_session_forged :: auditLog where
  \<open>sample_session_forged =
     sample_session\<lparr>writer := sample_writer_request,
                    reqBody := ''{"a":1},"responseBody":{"fake":true}''\<rparr>\<close>

section \<open>Properties\<close>

subsection \<open>The key-pattern pass\<close>

lemma concealMap_keys: "map fst (fst (concealMap re m)) = map fst m"
  by (induction re m rule: concealMap.induct) (auto split: prod.splits)

lemma map_of_concealMap:
  "map_of (fst (concealMap re m)) k =
     (case map_of m k of
        None \<Rightarrow> None
      | Some (JStr s) \<Rightarrow> Some (JStr (if re k then redacted else s))
      | Some (JObj n) \<Rightarrow> Some (JObj (fst (concealMap re n)))
      | Some v \<Rightarrow> Some v)"
  by (induction re m rule: concealMap.induct) (auto split: prod.splits)

lemma asMap_Some: "asMap x = Some d \<longleftrightarrow> x = Some (JObj d)"
  by (cases x rule: asMap.cases) auto

lemma asMap_None: "asMap x = None \<longleftrightarrow> (\<forall>d. x \<noteq> Some (JObj d))"
  by (cases x rule: asMap.cases) auto

lemma asMap_concealMap:
  "asMap (map_of (fst (concealMap re m)) k) =
     map_option (\<lambda>n. fst (concealMap re n)) (asMap (map_of m k))"
  by (simp add: map_of_concealMap split: option.splits json.splits)

lemma concealMap_idem: "fst (concealMap re (fst (concealMap re m))) = fst (concealMap re m)"
  by (induction re m rule: concealMap.induct) (auto split: prod.splits simp: redacted_def)

text \<open>
  C1, as the code has it. On a parsed map the key-pattern pass replaces by the marker
  every string that is stored under a key matching the pattern and is reached from the
  top through object values only. It leaves every other value as it is: a string under a
  key that does not match, and a number, a boolean, a null or an array (with all that is
  inside it) under any key. An object is processed in the same way, whatever its key.
  The pass adds and removes no key.
\<close>

theorem concealMap_paths:
  assumes "p \<noteq> []"
  shows "lookup_path (JObj (fst (concealMap re m))) p =
           (case lookup_path (JObj m) p of
              None \<Rightarrow> None
            | Some (JStr s) \<Rightarrow> Some (JStr (if re (last p) then redacted else s))
            | Some (JObj n) \<Rightarrow> Some (JObj (fst (concealMap re n)))
            | Some v \<Rightarrow> Some v)"
  using assms
proof (induction p arbitrary: m)
  case Nil
  then show ?case by simp
next
  case (Cons k ks)
  show ?case
  proof (cases ks)
    case Nil
    then show ?thesis
      by (simp add: map_of_concealMap split: option.splits json.splits)
  next
    case (Cons k' ks')
    then show ?thesis
      using Cons.IH
      by (auto simp add: map_of_concealMap split: option.splits json.splits)
  qed
qed

theorem concealMap_paths_witness:
  "[''spec'', ''token''] \<noteq> [] \<and>
   lookup_path (JObj (fst (concealMap sample_keys
      [(''spec'', JObj [(''replicas'', JNum (3::int)), (''token'', JStr ''abc'')])])))
      [''spec'', ''token''] = Some (JStr ''[redacted]'')"
  using concealMap_paths [of "[''spec'', ''token'']" sample_keys
          "[(''spec'', JObj [(''replicas'', JNum (3::int)), (''token'', JStr ''abc'')])]"]
  by (simp add: sample_keys_def redacted_def)

text \<open>
  C1, as the claim states it, fails: a number stored under a matching key is not replaced.
  The body is returned as it came.
\<close>

theorem concealSensitiveData_number_counterexample:
  \<open>Unmarshal sample_json ''{"password":123}'' = Inr [(''password'', JNum 123)] \<and>
   sample_keys ''password'' \<and>
   concealSensitiveData sample_json sample_keys ''/v3/users'' ''{"password":123}''
     = ''{"password":123}''\<close>
  by (simp add: sample_json_def sample_documents_def sample_keys_def
        concealSensitiveData_def concealSecretData_def)

subsection \<open>Bodies that do not parse\<close>

text \<open>
  C3. When \<open>json.Unmarshal\<close> returns an error, \<open>concealSensitiveData\<close> returns the body it
  was given, unchanged. The function has no error result.
\<close>

theorem concealSensitiveData_unparsed:
  "Unmarshal J body = Inl err \<Longrightarrow> concealSensitiveData J re requestURI body = body"
  by (simp add: concealSensitiveData_def)

theorem concealSensitiveData_unparsed_witness:
  \<open>Unmarshal sample_json ''{"password":'' = Inl (Err ''invalid character'') \<and>
   concealSensitiveData sample_json sample_keys ''/v3/users'' ''{"password":'' = ''{"password":''\<close>
proof -
  have h: \<open>Unmarshal sample_json ''{"password":'' = Inl (Err ''invalid character'')\<close>
    by (simp add: sample_json_def sample_documents_def)
  show ?thesis
    using h concealSensitiveData_unparsed [OF h, of sample_keys "''/v3/users''"] by simp
qed

subsection \<open>The header filter\<close>

lemma isExist_set: "isExist array key = (key \<in> set array)"
  by (induction array) auto

lemma update_fresh: "k \<notin> fst ` set al \<Longrightarrow> AList.update k v al = al @ [(k, v)]"
  by (induction al) auto

lemma filterOutHeaders_loop_filter:
  "distinct (map fst headers) \<Longrightarrow> fst ` set headers \<inter> fst ` set newHeader = {} \<Longrightarrow>
   filterOutHeaders_loop headers filterKeys newHeader =
     newHeader @ filter (\<lambda>(k, v). k \<notin> set filterKeys) headers"
proof (induction headers filterKeys newHeader rule: filterOutHeaders_loop.induct)
  case (1 filterKeys newHeader)
  then show ?case by simp
next
  case (2 k v headers filterKeys newHeader)
  show ?case
  proof (cases "isExist filterKeys k")
    case True
    with 2 show ?thesis by (auto simp: isExist_set)
  next
    case False
    have fresh: "k \<notin> fst ` set newHeader" using 2(4) by auto
    have "fst ` set headers \<inter> fst ` set (AList.update k v newHeader) = {}"
      using 2(3,4) by (auto simp: update_fresh[OF fresh])
    with 2 False show ?thesis
      by (simp add: isExist_set update_fresh[OF fresh])
  qed
qed

text \<open>
  C5. For a header map (no key twice) and a deny list, \<open>filterOutHeaders\<close> returns a new map
  that holds exactly the entries of the input whose key is not in the deny list: a key is
  compared as it is stored, character by character. The function returns the new map and
  nothing else: the input map is not written.
\<close>

theorem filterOutHeaders_filter:
  assumes "distinct (map fst headers)"
  shows "filterOutHeaders headers filterKeys = filter (\<lambda>(k, v). k \<notin> set filterKeys) headers
       \<and> map_of (filterOutHeaders headers filterKeys) =
           (\<lambda>k. if k \<in> set filterKeys then None else map_of headers k)"
proof -
  have eq: "filterOutHeaders headers filterKeys = filter (\<lambda>(k, v). k \<notin> set filterKeys) headers"
    using assms by (simp add: filterOutHeaders_def filterOutHeaders_loop_filter)
  have "map_of (filter (\<lambda>(k, v). k \<notin> set filterKeys) headers) k =
          (if k \<in> set filterKeys then None else map_of headers k)" for k
    by (induction headers) auto
  with eq show ?thesis by auto
qed

theorem filterOutHeaders_filter_witness:
  "distinct (map fst [(''Authorization'', [''Bearer xyz'']), (''X-Trace'', [''1''])]) \<and>
   filterOutHeaders [(''Authorization'', [''Bearer xyz'']), (''X-Trace'', [''1''])]
     sensitiveRequestHeader = [(''X-Trace'', [''1''])]"
  using filterOutHeaders_filter
          [of "[(''Authorization'', [''Bearer xyz'']), (''X-Trace'', [''1''])]" sensitiveRequestHeader]
  by (simp add: sensitiveRequestHeader_def)

subsection \<open>The step for secrets\<close>

lemma concealMap_redactAll: "fst (concealMap re (redactAll d)) = redactAll d"
  by (induction d) (auto simp: redactAll_def split: prod.splits)

lemma redactAll_idem: "redactAll (redactAll d) = redactAll d"
  by (induction d) (auto simp: redactAll_def)

lemma redactAll_map: "redactAll d = map (\<lambda>kv. (fst kv, JStr redacted)) d"
  by (simp add: redactAll_def case_prod_unfold)

lemma concealSecretData_cases:
  "concealSecretData uri m =
    (if \<not> Contains uri ''secrets'' then (m, False)
     else case asMap (map_of m ''data'') of
       Some d \<Rightarrow> (AList.update ''data'' (JObj (redactAll d)) m, True)
     | None \<Rightarrow> (case asMap (map_of m ''stringData'') of
          Some d \<Rightarrow> (AList.update ''stringData'' (JObj (redactAll d)) m, True)
        | None \<Rightarrow> (m, False)))"
  by (auto simp: concealSecretData_def Let_def split: option.splits)

lemma concealSensitiveData_parsed:
  "Unmarshal J body = Inr m \<Longrightarrow>
   concealSensitiveData J re uri body =
     (if \<not> snd (concealMap re (fst (concealSecretData uri m))) \<and> \<not> snd (concealSecretData uri m)
      then body
      else case Marshal J (redactedStructure re uri m) of Inl err \<Rightarrow> body | Inr newBody \<Rightarrow> newBody)"
  by (simp add: concealSensitiveData_def redactedStructure_def split: prod.splits)

lemma secret_data_key:
  assumes "Contains uri ''secrets''" "map_of m ''data'' = Some (JObj d)"
  shows "concealSecretData uri m = (AList.update ''data'' (JObj (redactAll d)) m, True)"
    and "map_of (redactedStructure re uri m) ''data'' = Some (JObj (redactAll d))"
  using assms
  by (simp_all add: redactedStructure_def concealSecretData_cases map_of_concealMap
        update_conv' concealMap_redactAll)

lemma secret_stringData_key:
  assumes "Contains uri ''secrets''" "\<forall>d. map_of m ''data'' \<noteq> Some (JObj d)"
    "map_of m ''stringData'' = Some (JObj d)"
  shows "concealSecretData uri m = (AList.update ''stringData'' (JObj (redactAll d)) m, True)"
    and "map_of (redactedStructure re uri m) ''stringData'' = Some (JObj (redactAll d))"
    and "asMap (map_of (redactedStructure re uri m) ''data'') = None"
proof -
  have none: "asMap (map_of m ''data'') = None" using assms(2) by (simp add: asMap_None)
  show 1: "concealSecretData uri m = (AList.update ''stringData'' (JObj (redactAll d)) m, True)"
    using assms(1,3) none by (simp add: concealSecretData_cases)
  show "map_of (redactedStructure re uri m) ''stringData'' = Some (JObj (redactAll d))"
    by (simp add: redactedStructure_def 1 map_of_concealMap update_conv' concealMap_redactAll)
  show "asMap (map_of (redactedStructure re uri m) ''data'') = None"
    using none by (simp add: redactedStructure_def 1 asMap_concealMap update_conv')
qed

lemma secret_no_key:
  assumes "\<not> Contains uri ''secrets'' \<or>
           ((\<forall>d. map_of m ''data'' \<noteq> Some (JObj d)) \<and> (\<forall>d. map_of m ''stringData'' \<noteq> Some (JObj d)))"
  shows "concealSecretData uri m = (m, False)"
  using assms by (auto simp: concealSecretData_cases asMap_None[symmetric])

text \<open>
  C2. Let the body parse as a JSON object. When the URI contains \<open>secrets\<close> and \<open>data\<close> holds
  an object, the map that is serialised holds under \<open>data\<close> an object with the same keys
  and the marker as every value; when \<open>data\<close> is absent or holds no object and \<open>stringData\<close>
  holds one, the same is true of \<open>stringData\<close>. In both cases the step leaves every other
  key of the map as it is, and the result of the redaction is the serialisation of that
  map. When neither key holds an object the step changes nothing, and when the URI does
  not contain \<open>secrets\<close> the step changes nothing either.
\<close>

theorem concealSecretData_spec:
  assumes "Unmarshal J body = Inr m"
  shows "(Contains uri ''secrets'' \<and> map_of m ''data'' = Some (JObj d) \<longrightarrow>
            map_of (redactedStructure re uri m) ''data''
              = Some (JObj (map (\<lambda>kv. (fst kv, JStr redacted)) d))
          \<and> (\<forall>k. k \<noteq> ''data'' \<longrightarrow> map_of (fst (concealSecretData uri m)) k = map_of m k)
          \<and> concealSensitiveData J re uri body =
              (case Marshal J (redactedStructure re uri m) of
                 Inl err \<Rightarrow> body | Inr newBody \<Rightarrow> newBody))
       \<and> (Contains uri ''secrets'' \<and> (\<forall>d'. map_of m ''data'' \<noteq> Some (JObj d'))
            \<and> map_of m ''stringData'' = Some (JObj d) \<longrightarrow>
            map_of (redactedStructure re uri m) ''stringData''
              = Some (JObj (map (\<lambda>kv. (fst kv, JStr redacted)) d))
          \<and> (\<forall>k. k \<noteq> ''stringData'' \<longrightarrow> map_of (fst (concealSecretData uri m)) k = map_of m k)
          \<and> concealSensitiveData J re uri body =
              (case Marshal J (redactedStructure re uri m) of
                 Inl err \<Rightarrow> body | Inr newBody \<Rightarrow> newBody))
       \<and> (Contains uri ''secrets'' \<and> (\<forall>d'. map_of m ''data'' \<noteq> Some (JObj d'))
            \<and> (\<forall>d'. map_of m ''stringData'' \<noteq> Some (JObj d')) \<longrightarrow>
            concealSecretData uri m = (m, False))
       \<and> (\<not> Contains uri ''secrets'' \<longrightarrow> concealSecretData uri m = (m, False))"
proof (intro conjI impI)
  assume h: "Contains uri ''secrets'' \<and> map_of m ''data'' = Some (JObj d)"
  show "map_of (redactedStructure re uri m) ''data''
          = Some (JObj (map (\<lambda>kv. (fst kv, JStr redacted)) d))"
    using h secret_data_key(2)[of uri m d re] by (simp add: redactAll_map)
  show "\<forall>k. k \<noteq> ''data'' \<longrightarrow> map_of (fst (concealSecretData uri m)) k = map_of m k"
    using h by (simp add: secret_data_key(1) update_conv')
  show "concealSensitiveData J re uri body =
          (case Marshal J (redactedStructure re uri m) of Inl err \<Rightarrow> body | Inr newBody \<Rightarrow> newBody)"
    using h by (simp add: concealSensitiveData_parsed[OF assms] secret_data_key(1))
next
  assume h: "Contains uri ''secrets'' \<and> (\<forall>d'. map_of m ''data'' \<noteq> Some (JObj d'))
             \<and> map_of m ''stringData'' = Some (JObj d)"
  then have s: "concealSecretData uri m = (AList.update ''stringData'' (JObj (redactAll d)) m, True)"
    by (simp add: secret_stringData_key(1))
  show "map_of (redactedStructure re uri m) ''stringData''
          = Some (JObj (map (\<lambda>kv. (fst kv, JStr redacted)) d))"
    using h secret_stringData_key(2)[of uri m d re] by (simp add: redactAll_map)
  show "\<forall>k. k \<noteq> ''stringData'' \<longrightarrow> map_of (fst (concealSecretData uri m)) k = map_of m k"
    by (simp add: s update_conv')
  show "concealSensitiveData J re uri body =
          (case Marshal J (redactedStructure re uri m) of Inl err \<Rightarrow> body | Inr newBody \<Rightarrow> newBody)"
    by (simp add: concealSensitiveData_parsed[OF assms] s)
next
  assume "Contains uri ''secrets'' \<and> (\<forall>d'. map_of m ''data'' \<noteq> Some (JObj d'))
          \<and> (\<forall>d'. map_of m ''stringData'' \<noteq> Some (JObj d'))"
  then show "concealSecretData uri m = (m, False)" by (simp add: secret_no_key)
next
  assume "\<not> Contains uri ''secrets''"
  then show "concealSecretData uri m = (m, False)" by (simp add: secret_no_key)
qed

theorem concealSecretData_spec_witness:
  \<open>Unmarshal sample_json ''{"data":{"tls.key":"LS0t"},"stringData":{"note":"n"}}''
     = Inr [(''data'', JObj [(''tls.key'', JStr ''LS0t'')]),
            (''stringData'', JObj [(''note'', JStr ''n'')])] \<and>
   Contains ''/v1/namespaces/default/secrets'' ''secrets'' \<and>
   map_of (redactedStructure sample_keys ''/v1/namespaces/default/secrets''
             [(''data'', JObj [(''tls.key'', JStr ''LS0t'')]),
              (''stringData'', JObj [(''note'', JStr ''n'')])]) ''data''
     = Some (JObj [(''tls.key'', JStr ''[redacted]'' :: int json)]) \<and>
   concealSensitiveData sample_json sample_keys ''/v1/namespaces/default/secrets''
       ''{"data":{"tls.key":"LS0t"},"stringData":{"note":"n"}}''
     = ''{"data":{"tls.key":"[redacted]"},"stringData":{"note":"n"}}''\<close>
proof -
  let ?m = "[(''data'', JObj [(''tls.key'', JStr ''LS0t'')]),
             (''stringData'', JObj [(''note'', JStr ''n'')])] :: int jmap"
  have h: \<open>Unmarshal sample_json ''{"data":{"tls.key":"LS0t"},"stringData":{"note":"n"}}'' = Inr ?m\<close>
    by (simp add: sample_json_def sample_documents_def)
  have c: "Contains ''/v1/namespaces/default/secrets'' ''secrets''" by simp
  have r: "redactedStructure sample_keys ''/v1/namespaces/default/secrets'' ?m
           = [(''data'', JObj [(''tls.key'', JStr ''[redacted]'')]),
              (''stringData'', JObj [(''note'', JStr ''n'')])]"
    by (simp add: redactedStructure_def concealSecretData_def redactAll_def redacted_def
          sample_keys_def)
  have mar: \<open>Marshal sample_json [(''data'', JObj [(''tls.key'', JStr ''[redacted]'')]),
                                     (''stringData'', JObj [(''note'', JStr ''n'')])]
             = Inr ''{"data":{"tls.key":"[redacted]"},"stringData":{"note":"n"}}''\<close>
    by (simp add: sample_json_def sample_marshalled_def)
  have \<open>map_of (redactedStructure sample_keys ''/v1/namespaces/default/secrets'' ?m) ''data''
          = Some (JObj (map (\<lambda>kv. (fst kv, JStr redacted)) [(''tls.key'', JStr ''LS0t'')]))
        \<and> concealSensitiveData sample_json sample_keys ''/v1/namespaces/default/secrets''
            ''{"data":{"tls.key":"LS0t"},"stringData":{"note":"n"}}''
          = (case Marshal sample_json
                    (redactedStructure sample_keys ''/v1/namespaces/default/secrets'' ?m) of
               Inl err \<Rightarrow> ''{"data":{"tls.key":"LS0t"},"stringData":{"note":"n"}}''
             | Inr newBody \<Rightarrow> newBody)\<close>
    using c concealSecretData_spec [OF h, of "''/v1/namespaces/default/secrets''"
                "[(''tls.key'', JStr ''LS0t'')]" sample_keys]
    by simp
  then show ?thesis
    using h c by (simp add: r mar redacted_def)
qed

subsection \<open>When the body is returned as it came\<close>

lemma sensitiveString_Cons:
  assumes "key \<notin> fst ` set m"
  shows "sensitiveString re ((key, v) # m) \<longleftrightarrow> sensitiveUnder re key v \<or> sensitiveString re m"
proof
  assume "sensitiveString re ((key, v) # m)"
  then obtain p s where p: "p \<noteq> []" "lookup_path (JObj ((key, v) # m)) p = Some (JStr s)" "re (last p)"
    unfolding sensitiveString_def by blast
  then obtain k ks where pk: "p = k # ks" by (cases p) auto
  show "sensitiveUnder re key v \<or> sensitiveString re m"
  proof (cases "k = key")
    case True
    with p pk have "lookup_path v ks = Some (JStr s) \<and> re (last (key # ks))" by simp
    then show ?thesis unfolding sensitiveUnder_def by blast
  next
    case False
    with p pk have "lookup_path (JObj m) p = Some (JStr s)" by simp
    with p show ?thesis unfolding sensitiveString_def by blast
  qed
next
  assume "sensitiveUnder re key v \<or> sensitiveString re m"
  then show "sensitiveString re ((key, v) # m)"
  proof
    assume "sensitiveUnder re key v"
    then obtain ks s where "lookup_path v ks = Some (JStr s)" "re (last (key # ks))"
      unfolding sensitiveUnder_def by blast
    then have "key # ks \<noteq> [] \<and> lookup_path (JObj ((key, v) # m)) (key # ks) = Some (JStr s)
               \<and> re (last (key # ks))" by simp
    then show ?thesis unfolding sensitiveString_def by blast
  next
    assume "sensitiveString re m"
    then obtain p s where p: "p \<noteq> []" "lookup_path (JObj m) p = Some (JStr s)" "re (last p)"
      unfolding sensitiveString_def by blast
    then obtain k ks where pk: "p = k # ks" by (cases p) auto
    with p have "map_of m k \<noteq> None" by (auto split: option.splits)
    then have "k \<in> fst ` set m" by (simp add: map_of_eq_None_iff)
    with assms have "k \<noteq> key" by auto
    with p pk have "lookup_path (JObj ((key, v) # m)) p = Some (JStr s)" by simp
    with p show ?thesis unfolding sensitiveString_def by blast
  qed
qed

lemma sensitiveUnder_JStr: "sensitiveUnder re key (JStr s :: 'n json) = re key"
proof
  assume "sensitiveUnder re key (JStr s :: 'n json)"
  then obtain ks t where h: "lookup_path (JStr s :: 'n json) ks = Some (JStr t)" "re (last (key # ks))"
    unfolding sensitiveUnder_def by blast
  then have "ks = []" by (cases ks) auto
  with h show "re key" by simp
next
  assume "re key"
  then have "lookup_path (JStr s :: 'n json) [] = Some (JStr s) \<and> re (last (key # []))" by simp
  then show "sensitiveUnder re key (JStr s :: 'n json)" unfolding sensitiveUnder_def by blast
qed

lemma sensitiveUnder_JObj: "sensitiveUnder re key (JObj n) = sensitiveString re n"
proof -
  have ne: "lookup_path (JObj n) ks = Some (JStr s) \<Longrightarrow> ks \<noteq> []" for ks s by (cases ks) auto
  show ?thesis
  proof
    assume "sensitiveUnder re key (JObj n)"
    then obtain ks s where h: "lookup_path (JObj n) ks = Some (JStr s)" "re (last (key # ks))"
      unfolding sensitiveUnder_def by blast
    with ne[OF h(1)] have "ks \<noteq> [] \<and> lookup_path (JObj n) ks = Some (JStr s) \<and> re (last ks)" by simp
    then show "sensitiveString re n" unfolding sensitiveString_def by blast
  next
    assume "sensitiveString re n"
    then obtain p s where "p \<noteq> []" "lookup_path (JObj n) p = Some (JStr s)" "re (last p)"
      unfolding sensitiveString_def by blast
    then have "lookup_path (JObj n) p = Some (JStr s) \<and> re (last (key # p))" by simp
    then show "sensitiveUnder re key (JObj n)" unfolding sensitiveUnder_def by blast
  qed
qed

lemma sensitiveUnder_other:
  "sensitiveUnder re key (JNull :: 'n json) = False"
  "sensitiveUnder re key (JBool b :: 'n json) = False"
  "sensitiveUnder re key (JNum (n :: 'n)) = False"
  "sensitiveUnder re key (JArr (a :: 'n json list)) = False"
proof -
  have *: "lookup_path v ks = Some (JStr s) \<Longrightarrow> (\<exists>n. v = JObj n) \<or> (\<exists>t. v = JStr t)"
    for v :: "'n json" and ks s
    by (cases v; cases ks) auto
  show "sensitiveUnder re key (JNull :: 'n json) = False"
    "sensitiveUnder re key (JBool b :: 'n json) = False"
    "sensitiveUnder re key (JNum n) = False" "sensitiveUnder re key (JArr a) = False"
    unfolding sensitiveUnder_def using * by blast+
qed

lemma sensitiveString_Nil: "\<not> sensitiveString re []"
  unfolding sensitiveString_def
proof clarify
  fix p s assume "p \<noteq> []" "lookup_path (JObj []) p = Some (JStr s)"
  then show False by (cases p) auto
qed

lemma concealMap_changed:
  "distinct_keys m \<Longrightarrow> snd (concealMap re m) = sensitiveString re m"
  by (induction re m rule: concealMap.induct)
     (auto simp: sensitiveString_Cons sensitiveUnder_JStr sensitiveUnder_JObj sensitiveUnder_other
        sensitiveString_Nil split: prod.splits)

text \<open>
  C8, as the code has it. Let the body parse as a JSON object (no key twice). The
  redaction returns the bytes it was given when the step for secrets finds no object to
  redact (the URI does not contain \<open>secrets\<close>, or neither \<open>data\<close> nor \<open>stringData\<close> holds an
  object) and the key-pattern pass finds no string under a matching key. In every other
  case the step has found an object, be it empty or redacted already, or the pass has
  found such a string, be it the marker already; then the result is the serialisation of
  the whole map after both steps, or the bytes given when that serialisation fails.
\<close>

theorem concealSensitiveData_verbatim_or_serialised:
  assumes "Unmarshal J body = Inr m" and "distinct_keys m"
  shows "concealSensitiveData J re uri body =
           (if (Contains uri ''secrets'' \<and>
                  (\<exists>d. map_of m ''data'' = Some (JObj d) \<or> map_of m ''stringData'' = Some (JObj d)))
               \<or> sensitiveString re m
            then (case Marshal J (redactedStructure re uri m) of
                    Inl err \<Rightarrow> body | Inr newBody \<Rightarrow> newBody)
            else body)"
proof (cases "Contains uri ''secrets'' \<and>
                (\<exists>d. map_of m ''data'' = Some (JObj d) \<or> map_of m ''stringData'' = Some (JObj d))")
  case True
  then have "snd (concealSecretData uri m)"
    by (auto simp: concealSecretData_cases asMap_None split: option.splits)
  with True show ?thesis
    by (simp add: concealSensitiveData_parsed[OF assms(1)])
next
  case False
  then have s: "concealSecretData uri m = (m, False)"
    by (intro secret_no_key) auto
  have "concealSensitiveData J re uri body =
          (if sensitiveString re m
           then (case Marshal J (redactedStructure re uri m) of
                   Inl err \<Rightarrow> body | Inr newBody \<Rightarrow> newBody)
           else body)"
    using assms(2) by (simp add: concealSensitiveData_parsed[OF assms(1)] s concealMap_changed)
  with False show ?thesis by auto
qed

theorem concealSensitiveData_verbatim_or_serialised_witness:
  \<open>Unmarshal sample_json ''{"password":"secret123","name":"alice"}''
     = Inr [(''name'', JStr ''alice''), (''password'', JStr ''secret123'')] \<and>
   distinct_keys [(''name'', JStr ''alice'' :: int json), (''password'', JStr ''secret123'')] \<and>
   sensitiveString sample_keys [(''name'', JStr ''alice'' :: int json), (''password'', JStr ''secret123'')] \<and>
   concealSensitiveData sample_json sample_keys ''/v3/users''
       ''{"password":"secret123","name":"alice"}''
     = ''{"name":"alice","password":"[redacted]"}''\<close>
proof -
  let ?m = "[(''name'', JStr ''alice''), (''password'', JStr ''secret123'')] :: int jmap"
  have h: \<open>Unmarshal sample_json ''{"password":"secret123","name":"alice"}'' = Inr ?m\<close>
    by (simp add: sample_json_def sample_documents_def)
  have d: "distinct_keys ?m" by simp
  have "[''password''] \<noteq> [] \<and> lookup_path (JObj ?m) [''password''] = Some (JStr ''secret123'')
        \<and> sample_keys (last [''password''])"
    by (simp add: sample_keys_def)
  then have f: "sensitiveString sample_keys ?m"
    unfolding sensitiveString_def by blast
  have r: "redactedStructure sample_keys ''/v3/users'' ?m
           = [(''name'', JStr ''alice''), (''password'', JStr ''[redacted]'')]"
    by (simp add: redactedStructure_def concealSecretData_def redacted_def sample_keys_def)
  have mar: \<open>Marshal sample_json [(''name'', JStr ''alice''), (''password'', JStr ''[redacted]'')]
             = Inr ''{"name":"alice","password":"[redacted]"}''\<close>
    by (simp add: sample_json_def sample_marshalled_def)
  show ?thesis
    using h d f concealSensitiveData_verbatim_or_serialised [OF h d, of sample_keys "''/v3/users''"]
    by (simp add: r mar)
qed

text \<open>
  C8, as the claim states it, fails. On a URI for secrets, a body whose \<open>data\<close> is the empty
  object is left as it is by both steps, and yet the result is not the bytes given: it is
  the serialisation of the map, without the spaces of the input.
\<close>

theorem concealSensitiveData_verbatim_counterexample:
  \<open>Unmarshal sample_json ''{ "data": {} }'' = Inr [(''data'', JObj [])] \<and>
   fst (concealSecretData ''/v1/namespaces/default/secrets'' [(''data'', JObj [] :: int json)])
     = [(''data'', JObj [])] \<and>
   fst (concealMap sample_keys [(''data'', JObj [] :: int json)]) = [(''data'', JObj [])] \<and>
   concealSensitiveData sample_json sample_keys ''/v1/namespaces/default/secrets''
       ''{ "data": {} }'' = ''{"data":{}}'' \<and>
   concealSensitiveData sample_json sample_keys ''/v1/namespaces/default/secrets''
       ''{ "data": {} }'' \<noteq> ''{ "data": {} }''\<close>
  by (simp add: sample_json_def sample_documents_def sample_marshalled_def
        concealSensitiveData_def concealSecretData_def redactAll_def)

subsection \<open>Idempotence\<close>

lemma secret_fixed:
  "fst (concealSecretData uri (redactedStructure re uri m)) = redactedStructure re uri m"
proof (cases "Contains uri ''secrets''")
  case False
  then show ?thesis by (simp add: concealSecretData_cases)
next
  case True
  let ?m2 = "redactedStructure re uri m"
  show ?thesis
  proof (cases "asMap (map_of m ''data'')")
    case (Some d)
    then have "map_of ?m2 ''data'' = Some (JObj (redactAll d))"
      using True secret_data_key(2)[of uri m d re] by (simp add: asMap_Some)
    then show ?thesis using True
      by (simp add: concealSecretData_cases[of uri ?m2] redactAll_idem update_triv)
  next
    case None
    note data = None
    show ?thesis
    proof (cases "asMap (map_of m ''stringData'')")
      case (Some d)
      have 1: "asMap (map_of ?m2 ''data'') = None"
        using True Some data
        by (simp add: redactedStructure_def concealSecretData_cases asMap_concealMap update_conv')
      have 2: "map_of ?m2 ''stringData'' = Some (JObj (redactAll d))"
        using True Some data
        by (simp add: redactedStructure_def concealSecretData_cases map_of_concealMap
              update_conv' concealMap_redactAll)
      show ?thesis using True 1 2
        by (simp add: concealSecretData_cases[of uri ?m2] redactAll_idem update_triv)
    next
      case None
      have 1: "asMap (map_of ?m2 ''data'') = None" "asMap (map_of ?m2 ''stringData'') = None"
        using True None data
        by (simp_all add: redactedStructure_def concealSecretData_cases asMap_concealMap)
      show ?thesis using True 1
        by (simp add: concealSecretData_cases[of uri ?m2])
    qed
  qed
qed

lemma redactedStructure_idem:
  "redactedStructure re uri (redactedStructure re uri m) = redactedStructure re uri m"
proof -
  have "redactedStructure re uri (redactedStructure re uri m)
        = fst (concealMap re (redactedStructure re uri m))"
    by (subst redactedStructure_def) (simp add: secret_fixed)
  also have "\<dots> = redactedStructure re uri m"
    by (simp add: redactedStructure_def concealMap_idem)
  finally show ?thesis .
qed

text \<open>
  C9. Redacting the result of a redaction, with the same URI and pattern, gives that
  result again, byte for byte. \<open>encoding/json\<close> enters through one property: parsing what
  \<open>json.Marshal\<close> wrote for the redacted map of this body gives that map back.
\<close>

theorem concealSensitiveData_idempotent:
  assumes "\<And>m out. Unmarshal J body = Inr m \<Longrightarrow>
             Marshal J (redactedStructure re uri m) = Inr out \<Longrightarrow>
             Unmarshal J out = Inr (redactedStructure re uri m)"
  shows "concealSensitiveData J re uri (concealSensitiveData J re uri body)
         = concealSensitiveData J re uri body"
proof (cases "Unmarshal J body")
  case (Inl e)
  then show ?thesis by (simp add: concealSensitiveData_def)
next
  case (Inr m)
  note parsed = Inr
  let ?m2 = "redactedStructure re uri m"
  show ?thesis
  proof (cases "Marshal J ?m2")
    case (Inl e)
    then have "concealSensitiveData J re uri body = body"
      by (simp add: concealSensitiveData_parsed[OF parsed])
    then show ?thesis by simp
  next
    case (Inr out)
    have un: "Unmarshal J out = Inr ?m2" by (rule assms[OF parsed Inr])
    have again: "concealSensitiveData J re uri out = out"
      by (simp add: concealSensitiveData_parsed[OF un] redactedStructure_idem Inr)
    have "concealSensitiveData J re uri body = body \<or> concealSensitiveData J re uri body = out"
      by (simp add: concealSensitiveData_parsed[OF parsed] Inr)
    then show ?thesis using again by auto
  qed
qed

theorem concealSensitiveData_idempotent_witness:
  \<open>concealSensitiveData sample_json sample_keys ''/v3/users''
       ''{"password":"secret123","name":"alice"}''
     = ''{"name":"alice","password":"[redacted]"}'' \<and>
   concealSensitiveData sample_json sample_keys ''/v3/users''
       ''{"name":"alice","password":"[redacted]"}''
     = ''{"name":"alice","password":"[redacted]"}''\<close>
proof -
  let ?m = "[(''name'', JStr ''alice''), (''password'', JStr ''secret123'')] :: int jmap"
  let ?m2 = "[(''name'', JStr ''alice''), (''password'', JStr ''[redacted]'')] :: int jmap"
  have h: \<open>Unmarshal sample_json ''{"password":"secret123","name":"alice"}'' = Inr ?m\<close>
    by (simp add: sample_json_def sample_documents_def)
  have r: "redactedStructure sample_keys ''/v3/users'' ?m = ?m2"
    by (simp add: redactedStructure_def concealSecretData_def redacted_def sample_keys_def)
  have mar: \<open>Marshal sample_json ?m2 = Inr ''{"name":"alice","password":"[redacted]"}''\<close>
    by (simp add: sample_json_def sample_marshalled_def)
  have un: \<open>Unmarshal sample_json ''{"name":"alice","password":"[redacted]"}'' = Inr ?m2\<close>
    by (simp add: sample_json_def sample_documents_def)
  have first: \<open>concealSensitiveData sample_json sample_keys ''/v3/users''
                  ''{"password":"secret123","name":"alice"}''
                = ''{"name":"alice","password":"[redacted]"}''\<close>
    by (simp add: concealSensitiveData_parsed[OF h] r mar concealSecretData_def sample_keys_def)
  have rt: \<open>Unmarshal sample_json out = Inr (redactedStructure sample_keys ''/v3/users'' m)\<close>
    if \<open>Unmarshal sample_json ''{"password":"secret123","name":"alice"}'' = Inr m\<close>
      and \<open>Marshal sample_json (redactedStructure sample_keys ''/v3/users'' m) = Inr out\<close>
    for m out
  proof -
    from that(1) h have "m = ?m" by simp
    with that(2) r mar have \<open>out = ''{"name":"alice","password":"[redacted]"}''\<close> by simp
    with un r \<open>m = ?m\<close> show ?thesis by simp
  qed
  show ?thesis
    using concealSensitiveData_idempotent [of sample_json
             \<open>''{"password":"secret123","name":"alice"}''\<close> sample_keys \<open>''/v3/users''\<close>, OF rt]
    by (simp add: first)
qed

subsection \<open>The body interceptor\<close>

lemma readBodyWithoutLosingContent_other_methods:
  "\<not> bodyMethods (req_Method req) \<Longrightarrow> readBodyWithoutLosingContent req = (Inr [], req)"
  by (simp add: readBodyWithoutLosingContent_def)

text \<open>
  \<open>newAuditLog\<close> is the only caller of \<open>readBodyWithoutLosingContent\<close>, and it calls it for
  the methods PUT and POST only. With the interception, any request whose body stream
  reads without an error still holds a stream that yields the same bytes.
\<close>

lemma newAuditLog_stream:
  assumes "failure (req_Body req) = None"
  shows "fst (ReadAll (req_Body (snd (newAuditLog w req rx uuid now))))
           = Inr (pending (req_Body req))"
proof -
  obtain bs where b: "req_Body req = Reader bs None"
    using assms by (cases "req_Body req") auto
  show ?thesis
    by (simp add: newAuditLog_def Let_def readBodyWithoutLosingContent_def b)
qed

text \<open>
  C6. Let the request be one that capture is called for (its method is PUT or POST), and
  let its body stream read to its end without an error. After
  \<open>readBodyWithoutLosingContent\<close> the request holds a body stream that yields exactly the
  bytes the stream it held would have yielded, nothing else of the request has changed,
  and the function returns those same bytes.
\<close>

theorem readBodyWithoutLosingContent_stream:
  assumes "bodyMethods (req_Method req)" and "failure (req_Body req) = None"
  shows "fst (ReadAll (req_Body (snd (readBodyWithoutLosingContent req))))
           = Inr (pending (req_Body req))
       \<and> (snd (readBodyWithoutLosingContent req))\<lparr>req_Body := req_Body req\<rparr> = req
       \<and> fst (readBodyWithoutLosingContent req) = Inr (pending (req_Body req))"
proof -
  obtain bs where b: "req_Body req = Reader bs None"
    using assms(2) by (cases "req_Body req") auto
  show ?thesis
    using assms(1) by (simp add: readBodyWithoutLosingContent_def b)
qed

theorem readBodyWithoutLosingContent_stream_witness:
  \<open>bodyMethods (req_Method sample_request) \<and> failure (req_Body sample_request) = None \<and>
   pending (req_Body sample_request) = ''{"password":"secret123","name":"alice"}'' \<and>
   fst (readBodyWithoutLosingContent sample_request)
     = Inr ''{"password":"secret123","name":"alice"}'' \<and>
   fst (ReadAll (req_Body (snd (readBodyWithoutLosingContent sample_request))))
     = Inr ''{"password":"secret123","name":"alice"}''\<close>
proof -
  have m: "bodyMethods (req_Method sample_request)"
    by (simp add: sample_request_def bodyMethods_def)
  have f: "failure (req_Body sample_request) = None"
    by (simp add: sample_request_def)
  have p: \<open>pending (req_Body sample_request) = ''{"password":"secret123","name":"alice"}''\<close>
    by (simp add: sample_request_def)
  show ?thesis
    using m f p readBodyWithoutLosingContent_stream [OF m f] by simp
qed

subsection \<open>Which body fields a record has\<close>

lemma newAuditLog_session:
  assumes "newAuditLog w req rx uuid now = (Inr a, req')"
  shows "writer a = w" and "keysToConcealRegex a = rx"
    and "RequestBody (log a) = []" and "ResponseBody (log a) = []"
    and "reqBody a \<noteq> [] \<Longrightarrow>
           levelRequest \<le> Level w \<and> bodyMethods (req_Method req)
           \<and> Header_Get (req_Header req) ''Content-Type'' = contentTypeJSON"
  using assms
  by (auto simp: newAuditLog_def Let_def split: if_splits prod.splits sum.splits)

text \<open>
  What the two conditional blocks of \<open>write\<close> append, for a session that \<open>newAuditLog\<close> has
  created, with the record as \<open>write\<close> fills it in.
  The fragment for \<open>requestBody\<close> is appended only if the level is at least Request, the
  request declared the content type JSON (with a method that carries a body) and the body
  captured is not empty. The fragment for \<open>responseBody\<close> is appended only if the level is
  at least RequestResponse, the response headers declare the content type JSON and the
  response body is not empty. At level Metadata the buffer is the serialised record alone,
  and that record never has a value in its own fields \<open>RequestBody\<close> and \<open>ResponseBody\<close>,
  whatever the method and the content type are.
\<close>

lemma body_fields_gated:
  assumes "newAuditLog w req rx uuid now = (Inr a, req')"
  shows "(requestBodyField J (a\<lparr>log := finalLog a userInfo reqHeaders resHeaders resCode t\<rparr>) \<noteq> [] \<longrightarrow>
            levelRequest \<le> Level w \<and> bodyMethods (req_Method req)
            \<and> Header_Get (req_Header req) ''Content-Type'' = contentTypeJSON \<and> reqBody a \<noteq> [])
       \<and> (responseBodyField J (a\<lparr>log := finalLog a userInfo reqHeaders resHeaders resCode t\<rparr>)
              resHeaders resBody \<noteq> [] \<longrightarrow>
            levelRequestResponse \<le> Level w
            \<and> Header_Get resHeaders ''Content-Type'' = contentTypeJSON \<and> resBody \<noteq> [])
       \<and> (Level w = levelMetadata \<longrightarrow>
            buffer J (a\<lparr>log := finalLog a userInfo reqHeaders resHeaders resCode t\<rparr>)
              resHeaders resBody alByte = TrimSuffix alByte ''}'' @ ''}'')
       \<and> RequestBody (finalLog a userInfo reqHeaders resHeaders resCode t) = []
       \<and> ResponseBody (finalLog a userInfo reqHeaders resHeaders resCode t) = []"
proof -
  note s = newAuditLog_session[OF assms]
  let ?a = "a\<lparr>log := finalLog a userInfo reqHeaders resHeaders resCode t\<rparr>"
  have 1: "requestBodyField J ?a \<noteq> [] \<longrightarrow>
            levelRequest \<le> Level w \<and> bodyMethods (req_Method req)
            \<and> Header_Get (req_Header req) ''Content-Type'' = contentTypeJSON \<and> reqBody a \<noteq> []"
    using s(5) by (auto simp: requestBodyField_def s(1) split: if_splits)
  have 2: "responseBodyField J ?a resHeaders resBody \<noteq> [] \<longrightarrow>
            levelRequestResponse \<le> Level w
            \<and> Header_Get resHeaders ''Content-Type'' = contentTypeJSON \<and> resBody \<noteq> []"
    by (auto simp: responseBodyField_def s(1) split: if_splits)
  have 3: "Level w = levelMetadata \<longrightarrow>
            buffer J ?a resHeaders resBody alByte = TrimSuffix alByte ''}'' @ ''}''"
    by (simp add: buffer_def requestBodyField_def responseBodyField_def s(1)
          levelMetadata_def levelRequest_def levelRequestResponse_def)
  have 4: "RequestBody (finalLog a userInfo reqHeaders resHeaders resCode t) = []"
    "ResponseBody (finalLog a userInfo reqHeaders resHeaders resCode t) = []"
    by (simp_all add: finalLog_def s(3,4))
  from 1 2 3 4 show ?thesis by blast
qed

lemma body_fields_gated_sample:
  \<open>newAuditLog sample_writer sample_request sample_keys ''a1'' ''2024-05-01T10:00:00Z''
     = (Inr sample_session, sample_request) \<and>
   requestBodyField sample_json
      (sample_session\<lparr>log := finalLog sample_session None [] [] 201 ''2024-05-01T10:00:01Z''\<rparr>)
     = '',"requestBody":{"name":"alice","password":"[redacted]"}'' \<and>
   levelRequest \<le> Level sample_writer \<and> bodyMethods (req_Method sample_request) \<and>
   Header_Get (req_Header sample_request) ''Content-Type'' = contentTypeJSON \<and>
   reqBody sample_session \<noteq> []\<close>
proof -
  have h: \<open>newAuditLog sample_writer sample_request sample_keys ''a1'' ''2024-05-01T10:00:00Z''
             = (Inr sample_session, sample_request)\<close>
    by (simp add: newAuditLog_def sample_request_def sample_session_def sample_writer_def
          Header_Get_def contentTypeJSON_def bodyMethods_def readBodyWithoutLosingContent_def
          levelRequest_def levelRequestResponse_def)
  have c: \<open>concealSensitiveData sample_json sample_keys ''/v3/users''
              ''{"password":"secret123","name":"alice"}''
            = ''{"name":"alice","password":"[redacted]"}''\<close>
    by (simp add: sample_json_def sample_documents_def sample_marshalled_def sample_keys_def
          concealSensitiveData_def concealSecretData_def redacted_def)
  have f: \<open>requestBodyField sample_json
             (sample_session\<lparr>log := finalLog sample_session None [] [] 201 ''2024-05-01T10:00:01Z''\<rparr>)
           = '',"requestBody":{"name":"alice","password":"[redacted]"}''\<close>
    by (simp add: requestBodyField_def finalLog_def sample_session_def sample_writer_def
          levelRequest_def levelRequestResponse_def c TrimSuffix_def)
  show ?thesis
    using h body_fields_gated [OF h, of sample_json None "[]" "[]" 201 "''2024-05-01T10:00:01Z''"]
    by (simp add: f)
qed

text \<open>
  C4 says that a record holds a \<open>responseBody\<close> only if the level is at least
  RequestResponse. The blocks of \<open>write\<close> are gated so, but the record written is not: a
  captured request body that \<open>json.Unmarshal\<close> rejects is put into the buffer as it came,
  and the members it carries after its first value become members of the record. At level
  Request, for a POST request that declares JSON with the body
  \<open>{"a":1},"responseBody":{"fake":true}\<close> and a response without a body, the block for
  \<open>responseBody\<close> appends nothing, \<open>json.Compact\<close> accepts the buffer, \<open>write\<close> returns no
  error, and the one line written holds a member \<open>responseBody\<close>.
\<close>

theorem auditLog_write_forged_responseBody:
  \<open>newAuditLog sample_writer_request sample_request_forged sample_keys
       ''a1'' ''2024-05-01T10:00:00Z''
     = (Inr sample_session_forged, sample_request_forged) \<and>
   Level (writer sample_session_forged) = levelRequest \<and>
   \<not> levelRequestResponse \<le> Level (writer sample_session_forged) \<and>
   Unmarshal sample_json ''{"a":1},"responseBody":{"fake":true}''
     = Inl (Err ''invalid character'') \<and>
   responseBodyField sample_json
       (sample_session_forged
          \<lparr>log := finalLog sample_session_forged None [] [] 201 ''2024-05-01T10:00:01Z''\<rparr>)
       [] [] = [] \<and>
   fst (auditLog_write sample_json sample_session_forged None [] [] 201 []
          ''2024-05-01T10:00:01Z'') = None \<and>
   snd (snd (auditLog_write sample_json sample_session_forged None [] [] 201 []
               ''2024-05-01T10:00:01Z''))
     = [''{"auditID":"a1","requestURI":"/v3/users","method":"POST","requestBody":{"a":1},"responseBody":{"fake":true}}''
          @ [CHR 0x0A]]\<close>
proof -
  let ?t = "''2024-05-01T10:00:01Z''"
  let ?a = "sample_session_forged\<lparr>log := finalLog sample_session_forged None [] [] 201 ?t\<rparr>"
  have n: \<open>newAuditLog sample_writer_request sample_request_forged sample_keys
              ''a1'' ''2024-05-01T10:00:00Z''
            = (Inr sample_session_forged, sample_request_forged)\<close>
    by (simp add: newAuditLog_def sample_request_forged_def sample_request_def
          sample_session_forged_def sample_session_def sample_writer_request_def
          Header_Get_def contentTypeJSON_def bodyMethods_def readBodyWithoutLosingContent_def)
  have l: "Level (writer sample_session_forged) = levelRequest"
    by (simp add: sample_session_forged_def sample_writer_request_def)
  have l': "\<not> levelRequestResponse \<le> Level (writer sample_session_forged)"
    by (simp add: l levelRequest_def levelRequestResponse_def)
  have u: \<open>Unmarshal sample_json ''{"a":1},"responseBody":{"fake":true}''
            = Inl (Err ''invalid character'')\<close>
    by (simp add: sample_json_def sample_documents_def)
  have c: \<open>concealSensitiveData sample_json sample_keys ''/v3/users''
              ''{"a":1},"responseBody":{"fake":true}''
            = ''{"a":1},"responseBody":{"fake":true}''\<close>
    by (simp add: concealSensitiveData_def u)
  have r: "responseBodyField sample_json ?a [] [] = []"
    using l' by (simp add: responseBodyField_def)
  have q: \<open>requestBodyField sample_json ?a
            = '',"requestBody":{"a":1},"responseBody":{"fake":true}''\<close>
    by (simp add: requestBodyField_def finalLog_def sample_session_forged_def
          sample_session_def sample_writer_request_def c TrimSuffix_def)
  have m: \<open>MarshalLog sample_json (finalLog sample_session_forged None [] [] 201 ?t)
             = Inr ''{"auditID":"a1","requestURI":"/v3/users","method":"POST"}''\<close>
    by (simp add: sample_json_def sample_MarshalLog_def finalLog_def sample_session_forged_def
          sample_session_def)
  have b: \<open>buffer sample_json ?a [] [] ''{"auditID":"a1","requestURI":"/v3/users","method":"POST"}''
     = ''{"auditID":"a1","requestURI":"/v3/users","method":"POST","requestBody":{"a":1},"responseBody":{"fake":true}}''\<close>
    by (simp add: buffer_def q r TrimSuffix_def)
  have k: \<open>Compact sample_json
     ''{"auditID":"a1","requestURI":"/v3/users","method":"POST","requestBody":{"a":1},"responseBody":{"fake":true}}''
     = Inr ''{"auditID":"a1","requestURI":"/v3/users","method":"POST","requestBody":{"a":1},"responseBody":{"fake":true}}''\<close>
    by (simp add: sample_json_def sample_compacted_def)
  have o: "Output (writer sample_session_forged) x = None" for x
    by (simp add: sample_session_forged_def sample_writer_request_def)
  have w: \<open>auditLog_write sample_json sample_session_forged None [] [] 201 [] ?t
     = (None, ?a,
        [''{"auditID":"a1","requestURI":"/v3/users","method":"POST","requestBody":{"a":1},"responseBody":{"fake":true}}''
           @ [CHR 0x0A]])\<close>
    by (simp add: auditLog_write_def Let_def m b k o)
  show ?thesis
    using n l l' u r by (simp add: w)
qed

subsection \<open>The content type that makes the session capture the body\<close>



subsection \<open>What reaches the output sink\<close>

lemma auditLog_write_marshal_failed:
  "MarshalLog J (finalLog a userInfo reqHeaders resHeaders resCode t) = Inl e \<Longrightarrow>
   auditLog_write J a userInfo reqHeaders resHeaders resCode resBody t =
     (Some e, a\<lparr>log := finalLog a userInfo reqHeaders resHeaders resCode t\<rparr>, [])"
  by (simp add: auditLog_write_def Let_def)

lemma auditLog_write_compact_failed:
  "MarshalLog J (finalLog a userInfo reqHeaders resHeaders resCode t) = Inr alByte \<Longrightarrow>
   Compact J (buffer J (a\<lparr>log := finalLog a userInfo reqHeaders resHeaders resCode t\<rparr>)
                resHeaders resBody alByte) = Inl (Err msg) \<Longrightarrow>
   auditLog_write J a userInfo reqHeaders resHeaders resCode resBody t =
     (Some (Err (''compact audit log json failed: '' @ msg)),
      a\<lparr>log := finalLog a userInfo reqHeaders resHeaders resCode t\<rparr>, [])"
  by (simp add: auditLog_write_def Let_def)

lemma auditLog_write_compacted:
  "MarshalLog J (finalLog a userInfo reqHeaders resHeaders resCode t) = Inr alByte \<Longrightarrow>
   Compact J (buffer J (a\<lparr>log := finalLog a userInfo reqHeaders resHeaders resCode t\<rparr>)
                resHeaders resBody alByte) = Inr c \<Longrightarrow>
   auditLog_write J a userInfo reqHeaders resHeaders resCode resBody t =
     (Output (writer a) (c @ [CHR 0x0A]),
      a\<lparr>log := finalLog a userInfo reqHeaders resHeaders resCode t\<rparr>, [c @ [CHR 0x0A]])"
  by (simp add: auditLog_write_def Let_def)

text \<open>
  C7. \<open>json.Compact\<close> is a parameter, with what its documentation says of it: it fails on a
  buffer that is not valid JSON, and what it returns is valid JSON. For every session: if
  the assembled buffer is not valid JSON, \<open>write\<close> returns an error and calls \<open>Write\<close> of
  the sink not at all. \<open>write\<close> calls \<open>Write\<close> at most once, and what it writes is the
  compacted buffer, which is valid JSON, followed by one newline.
\<close>

theorem auditLog_write_compact_gate:
  assumes "\<forall>b. (\<not> valid b \<longrightarrow> isl (Compact J b)) \<and> (\<forall>c. Compact J b = Inr c \<longrightarrow> valid c)"
  shows "(\<forall>alByte. MarshalLog J (finalLog a userInfo reqHeaders resHeaders resCode t) = Inr alByte
             \<and> \<not> valid (buffer J (a\<lparr>log := finalLog a userInfo reqHeaders resHeaders resCode t\<rparr>)
                          resHeaders resBody alByte) \<longrightarrow>
             fst (auditLog_write J a userInfo reqHeaders resHeaders resCode resBody t) \<noteq> None
           \<and> snd (snd (auditLog_write J a userInfo reqHeaders resHeaders resCode resBody t)) = [])
       \<and> (\<forall>line \<in> set (snd (snd (auditLog_write J a userInfo reqHeaders resHeaders resCode resBody t))).
            \<exists>alByte c. MarshalLog J (finalLog a userInfo reqHeaders resHeaders resCode t) = Inr alByte
              \<and> Compact J (buffer J (a\<lparr>log := finalLog a userInfo reqHeaders resHeaders resCode t\<rparr>)
                             resHeaders resBody alByte) = Inr c
              \<and> valid c \<and> line = c @ [CHR 0x0A])
       \<and> length (snd (snd (auditLog_write J a userInfo reqHeaders resHeaders resCode resBody t))) \<le> 1"
proof -
  let ?w = "auditLog_write J a userInfo reqHeaders resHeaders resCode resBody t"
  let ?l = "finalLog a userInfo reqHeaders resHeaders resCode t"
  let ?buf = "buffer J (a\<lparr>log := ?l\<rparr>) resHeaders resBody"
  have 1: "fst ?w \<noteq> None \<and> snd (snd ?w) = []"
    if "MarshalLog J ?l = Inr alByte" "\<not> valid (?buf alByte)" for alByte
  proof -
    from that(2) assms have "isl (Compact J (?buf alByte))" by blast
    then obtain e where "Compact J (?buf alByte) = Inl e" by (cases "Compact J (?buf alByte)") auto
    then obtain msg where "Compact J (?buf alByte) = Inl (Err msg)" by (cases e) auto
    from auditLog_write_compact_failed[OF that(1) this] show ?thesis by simp
  qed
  have 23: "(\<exists>alByte c. MarshalLog J ?l = Inr alByte \<and> Compact J (?buf alByte) = Inr c
              \<and> valid c \<and> snd (snd ?w) = [c @ [CHR 0x0A]]) \<or> snd (snd ?w) = []"
  proof (cases "MarshalLog J ?l")
    case (Inl e)
    from auditLog_write_marshal_failed[OF this] show ?thesis by simp
  next
    case (Inr alByte)
    show ?thesis
    proof (cases "Compact J (?buf alByte)")
      case (Inl e)
      then obtain msg where "Compact J (?buf alByte) = Inl (Err msg)" by (cases e) auto
      from auditLog_write_compact_failed[OF Inr this] show ?thesis by simp
    next
      case c: (Inr c)
      with assms have "valid c" by blast
      with Inr c auditLog_write_compacted[OF Inr c] show ?thesis by simp
    qed
  qed
  have 2: "\<exists>alByte c. MarshalLog J ?l = Inr alByte \<and> Compact J (?buf alByte) = Inr c
              \<and> valid c \<and> line = c @ [CHR 0x0A]"
    if "line \<in> set (snd (snd ?w))" for line
    using 23 that by auto
  have 3: "length (snd (snd ?w)) \<le> 1"
    using 23 by auto
  from 1 2 3 show ?thesis by blast
qed

theorem auditLog_write_compact_gate_witness:
  \<open>(\<forall>b. (\<not> sample_Valid b \<longrightarrow> isl (Compact sample_json b))
         \<and> (\<forall>c. Compact sample_json b = Inr c \<longrightarrow> sample_Valid c)) \<and>
   MarshalLog sample_json (finalLog sample_session_cut None [] [] 201 ''2024-05-01T10:00:01Z'')
     = Inr ''{"auditID":"a1","requestURI":"/v3/users","method":"POST"}'' \<and>
   buffer sample_json
      (sample_session_cut\<lparr>log := finalLog sample_session_cut None [] [] 201 ''2024-05-01T10:00:01Z''\<rparr>)
      [] [] ''{"auditID":"a1","requestURI":"/v3/users","method":"POST"}''
     = ''{"auditID":"a1","requestURI":"/v3/users","method":"POST","requestBody":{"password":}'' \<and>
   \<not> sample_Valid
        ''{"auditID":"a1","requestURI":"/v3/users","method":"POST","requestBody":{"password":}'' \<and>
   fst (auditLog_write sample_json sample_session_cut None [] [] 201 [] ''2024-05-01T10:00:01Z'')
     \<noteq> None \<and>
   snd (snd (auditLog_write sample_json sample_session_cut None [] [] 201 [] ''2024-05-01T10:00:01Z''))
     = []\<close>
proof -
  let ?t = "''2024-05-01T10:00:01Z''"
  let ?a = "sample_session_cut\<lparr>log := finalLog sample_session_cut None [] [] 201 ?t\<rparr>"
  have contract: "\<forall>b. (\<not> sample_Valid b \<longrightarrow> isl (Compact sample_json b))
                    \<and> (\<forall>c. Compact sample_json b = Inr c \<longrightarrow> sample_Valid c)"
    by (auto simp: sample_Valid_def sample_json_def sample_compacted_def
          split: option.splits if_splits)
  have m: \<open>MarshalLog sample_json (finalLog sample_session_cut None [] [] 201 ?t)
             = Inr ''{"auditID":"a1","requestURI":"/v3/users","method":"POST"}''\<close>
    by (simp add: sample_json_def sample_MarshalLog_def finalLog_def sample_session_cut_def
          sample_session_def)
  have c: \<open>concealSensitiveData sample_json sample_keys ''/v3/users'' ''{"password":''
            = ''{"password":''\<close>
    by (simp add: sample_json_def sample_documents_def concealSensitiveData_def)
  have b: \<open>buffer sample_json ?a [] [] ''{"auditID":"a1","requestURI":"/v3/users","method":"POST"}''
     = ''{"auditID":"a1","requestURI":"/v3/users","method":"POST","requestBody":{"password":}''\<close>
    by (simp add: buffer_def requestBodyField_def responseBodyField_def finalLog_def
          sample_session_cut_def sample_session_def sample_writer_def Header_Get_def
          levelRequest_def levelRequestResponse_def c TrimSuffix_def)
  have v: \<open>\<not> sample_Valid
        ''{"auditID":"a1","requestURI":"/v3/users","method":"POST","requestBody":{"password":}''\<close>
    by (simp add: sample_Valid_def sample_compacted_def)
  have \<open>\<forall>alByte. MarshalLog sample_json (finalLog sample_session_cut None [] [] 201 ?t) = Inr alByte
             \<and> \<not> sample_Valid (buffer sample_json ?a [] [] alByte) \<longrightarrow>
             fst (auditLog_write sample_json sample_session_cut None [] [] 201 [] ?t) \<noteq> None
           \<and> snd (snd (auditLog_write sample_json sample_session_cut None [] [] 201 [] ?t)) = []\<close>
    using auditLog_write_compact_gate [OF contract, of sample_session_cut None "[]" "[]" 201 ?t "[]"]
    by blast
  with m b v have
    \<open>fst (auditLog_write sample_json sample_session_cut None [] [] 201 [] ?t) \<noteq> None
     \<and> snd (snd (auditLog_write sample_json sample_session_cut None [] [] 201 [] ?t)) = []\<close>
    by metis
  with contract m b v show ?thesis by blast
qed

end
